theory Spec2Isabelle
  imports Main
begin

section \<open>Tokens, ancestor entries and the ancestry view (proto-ancestry.ts)\<close>

text \<open>
  An \<open>InjectionToken\<close> is an object: two tokens are the same token when they are the
  same object, whatever their description says. A token is modelled by its address
  \<open>tid\<close> together with its (immutable) description, and the source's \<open>===\<close> on
  tokens compares addresses.
\<close>

record token =
  tid :: nat
  desc :: string

definition sameToken :: "token \<Rightarrow> token \<Rightarrow> bool" where
  "sameToken a b \<longleftrightarrow> tid a = tid b"

text \<open>
  \<open>ProtoAncestorEntry\<close> has two readonly fields, \<open>token\<close> and \<open>state\<close>. The entry is
  an object of its own: \<open>eref\<close> is its address, \<open>estate\<close> the address of the proto
  state object it points to. The source's \<open>p !== selfEntry\<close> compares \<open>eref\<close>;
  structural equality would compare \<open>etoken\<close> and \<open>estate\<close>.
\<close>

record entry =
  eref :: nat
  etoken :: token
  estate :: nat

definition sameEntry :: "entry \<Rightarrow> entry \<Rightarrow> bool" where
  "sameEntry p q \<longleftrightarrow> eref p = eref q"

definition structurallyEqual :: "entry \<Rightarrow> entry \<Rightarrow> bool" where
  "structurallyEqual p q \<longleftrightarrow> sameToken (etoken p) (etoken q) \<and> estate p = estate q"

text \<open>
  A computed signal \<open>computed(() => allChildrenSignal().filter(e => e.token === token))\<close>
  is an object (address \<open>cref\<close>) that remembers the signal it reads (\<open>csrc\<close>, the
  address of the proto state object that owns the children signal) and the token it
  filters by.
\<close>

record computedSig =
  cref :: nat
  csrc :: nat
  ctok :: token

text \<open>
  The closure built by \<open>createProtoAncestry\<close>: the reversed chain, the token of the node,
  the children signal, the same-kind computed signal, the lazily filled
  \<open>cachedParent\<close> (\<open>None\<close> is \<open>undefined\<close>, \<open>Some None\<close> is \<open>null\<close>) and the
  \<open>childrenByTypeCache\<close> map, keyed by token identity.
\<close>

record ancestry =
  ancestors :: "entry list"
  currentToken :: token
  allChildrenSignal :: nat
  sameTypeChildren :: computedSig
  cachedParent :: "entry option option"
  childrenByTypeCache :: "nat \<rightharpoonup> computedSig"

text \<open>
  \<open>createProtoAncestry(parentChain, currentToken, allChildrenSignal)\<close>. The computed
  signal for the same-kind children is allocated at the next free address \<open>nxt\<close>.
\<close>

definition createProtoAncestry ::
  "entry list \<Rightarrow> token \<Rightarrow> nat \<Rightarrow> nat \<Rightarrow> ancestry \<times> nat" where
  "createProtoAncestry parentChain tok sig nxt =
     (\<lparr> ancestors = rev parentChain,
        currentToken = tok,
        allChildrenSignal = sig,
        sameTypeChildren = \<lparr> cref = nxt, csrc = sig, ctok = tok \<rparr>,
        cachedParent = None,
        childrenByTypeCache = Map.empty \<rparr>, Suc nxt)"

text \<open>The getter \<open>parent\<close>: computes on the first read, then answers from the cache.\<close>

definition parent :: "ancestry \<Rightarrow> entry option \<times> ancestry" where
  "parent a =
     (case cachedParent a of
        None \<Rightarrow>
          (let found = find (\<lambda>e. sameToken (etoken e) (currentToken a)) (ancestors a)
           in (found, a\<lparr> cachedParent := Some found \<rparr>))
      | Some c \<Rightarrow> (c, a))"

definition parentOfType :: "ancestry \<Rightarrow> token \<Rightarrow> entry option" where
  "parentOfType a tok = find (\<lambda>e. sameToken (etoken e) tok) (ancestors a)"

definition ancestorsOf :: "ancestry \<Rightarrow> (entry \<Rightarrow> bool) option \<Rightarrow> entry list" where
  "ancestorsOf a predicate =
     (let sameType = filter (\<lambda>e. sameToken (etoken e) (currentToken a)) (ancestors a)
      in case predicate of None \<Rightarrow> sameType | Some p \<Rightarrow> filter p sameType)"

definition ancestorsOfType ::
  "ancestry \<Rightarrow> token \<Rightarrow> (entry \<Rightarrow> bool) option \<Rightarrow> entry list" where
  "ancestorsOfType a tok predicate =
     (let ofType = filter (\<lambda>e. sameToken (etoken e) tok) (ancestors a)
      in case predicate of None \<Rightarrow> ofType | Some p \<Rightarrow> filter p ofType)"

definition allAncestors :: "ancestry \<Rightarrow> (entry \<Rightarrow> bool) option \<Rightarrow> entry list" where
  "allAncestors a predicate =
     (case predicate of None \<Rightarrow> ancestors a | Some p \<Rightarrow> filter p (ancestors a))"

text \<open>
  \<open>childrenOfType(token)\<close>: a cache hit returns the stored signal; a miss allocates a
  new computed signal at \<open>nxt\<close> and stores it. A signal is a function object, hence
  truthy, so \<open>!cached\<close> holds exactly on a miss.
\<close>

definition childrenOfType :: "token \<Rightarrow> ancestry \<times> nat \<Rightarrow> computedSig \<times> (ancestry \<times> nat)" where
  "childrenOfType tok s =
     (case s of (a, nxt) \<Rightarrow>
        (case childrenByTypeCache a (tid tok) of
           Some cached \<Rightarrow> (cached, (a, nxt))
         | None \<Rightarrow>
             (let cached = \<lparr> cref = nxt, csrc = allChildrenSignal a, ctok = tok \<rparr>
              in (cached,
                  (a\<lparr> childrenByTypeCache := (childrenByTypeCache a)(tid tok \<mapsto> cached) \<rparr>,
                   Suc nxt)))))"

text \<open>Any run of further \<open>childrenOfType\<close> calls, with any tokens.\<close>

fun childrenOfTypeCalls :: "token list \<Rightarrow> ancestry \<times> nat \<Rightarrow> ancestry \<times> nat" where
  "childrenOfTypeCalls [] s = s"
| "childrenOfTypeCalls (t # ts) s = childrenOfTypeCalls ts (snd (childrenOfType t s))"

section \<open>Configuration values and deep merge\<close>

text \<open>
  A configuration is a JSON-like value: numbers, strings, arrays and objects, an object
  being its fields in insertion order.
\<close>

datatype cfg = Num int | Str string | Arr "cfg list" | Obj "(string \<times> cfg) list"

text \<open>
  Modelled from the spec: \<open>deepMerge\<close> is imported from \<open>@angular-proto/core/utils\<close>,
  whose source is not among the files. Section 4.2 of the specification: for every leaf
  path the right-most contribution that defines a value wins; objects are merged key by
  key, recursively, rather than replaced wholesale; arrays are atomic values; a
  contribution may omit any sub-tree, which then keeps the value to its left; the inputs
  are not mutated. \<open>mergeTwo\<close> merges one contribution into a value, \<open>deepMerge\<close> folds
  it over the contributions from left to right.
\<close>

fun mergeTwo :: "cfg \<Rightarrow> cfg \<Rightarrow> cfg" where
  "mergeTwo (Obj fs) (Obj gs) =
     Obj (map (\<lambda>kv. (fst kv, case map_of gs (fst kv) of
                                None \<Rightarrow> snd kv
                              | Some w \<Rightarrow> mergeTwo (snd kv) w)) fs
          @ filter (\<lambda>kv. map_of fs (fst kv) = None) gs)"
| "mergeTwo a b = b"

definition deepMerge :: "cfg \<Rightarrow> cfg list \<Rightarrow> cfg" where
  "deepMerge d cs = foldl mergeTwo d cs"

text \<open>Reading a field of an object (\<open>None\<close> for a missing key or a non-object).\<close>

definition field :: "cfg \<Rightarrow> string \<Rightarrow> cfg option" where
  "field c k = (case c of Obj fs \<Rightarrow> map_of fs k | _ \<Rightarrow> None)"

section \<open>Controlled inputs\<close>

text \<open>
  Modelled from the spec: \<open>controlledInput\<close> is imported from
  \<open>@angular-proto/core/utils\<close>, whose source is not among the files. Section 3 of the
  specification: a controlled value pairs a template-driven value with an override value
  and a flag marking whether the override is active. \<open>initState\<close> only builds the
  container around each input; a new container holds the input's value and its
  override is not active. The container's operations are not modelled.
\<close>

record 'v controlled =
  templateValue :: 'v
  controlValue :: 'v
  isControlled :: bool

definition controlledInput :: "'v \<Rightarrow> 'v controlled" where
  "controlledInput v = \<lparr> templateValue = v, controlValue = v, isControlled = False \<rparr>"

text \<open>
  The fields of a host instance (type \<open>T\<close>) and of the published state
  (\<open>ProtoDirective<T>\<close>): an input signal becomes a controlled input, any other field
  passes through.
\<close>

datatype 'v rawField = InputSignal 'v | OtherField 'v

datatype 'v protoField = Controlled "'v controlled" | Untouched 'v

text \<open>
  The loop of \<open>initState\<close> over \<open>Object.keys(instance)\<close>: wraps every input signal and
  counts them.
\<close>

fun wrapInputs :: "(string \<times> 'v rawField) list \<Rightarrow> (string \<times> 'v protoField) list \<times> nat" where
  "wrapInputs [] = ([], 0)"
| "wrapInputs ((key, InputSignal v) # rest) =
     (case wrapInputs rest of
        (wrapped, inputCount) \<Rightarrow> ((key, Controlled (controlledInput v)) # wrapped, Suc inputCount))"
| "wrapInputs ((key, OtherField v) # rest) =
     (case wrapInputs rest of
        (wrapped, inputCount) \<Rightarrow> ((key, Untouched v) # wrapped, inputCount))"

section \<open>The store of proto state objects (proto.ts)\<close>

text \<open>
  \<open>Object.assign(source, props)\<close>: the proto state is the signal function object
  itself, carrying the metadata. \<open>source\<close> is the signal's value (\<open>None\<close> is \<open>null\<close>),
  \<open>hasSet\<close> and \<open>hasUpdate\<close> tell whether the object still owns its \<open>set\<close> and
  \<open>update\<close> properties. \<open>allChildren\<close> is the value of the writable children signal kept
  under the \<open>ALL_CHILDREN\<close> symbol; that signal is owned by exactly one proto state and is
  addressed by the address of its owner. \<open>uniqueId\<close> is not among the sources; ids are
  process-unique (specification, section 3) and the object's address is used.
  \<open>injector\<close> and \<open>elementRef\<close> are framework objects and are left out.
\<close>

record 'v protoState =
  source :: "(string \<times> 'v protoField) list option"
  hasSet :: bool
  hasUpdate :: bool
  protoId :: nat
  protoName :: string
  config :: cfg
  ancestry :: ancestry
  allChildren :: "entry list"

text \<open>
  The world: the next free address, the live proto state objects, the callbacks
  registered with \<open>destroyRef.onDestroy\<close> by each node, and the console. A callback
  \<open>() => cSignal.update(c => c.filter(p => p !== selfEntry))\<close> is the pair of the two
  variables it closes over: the owner of \<open>cSignal\<close> and \<open>selfEntry\<close>.
\<close>

record 'v world =
  nextRef :: nat
  protos :: "nat \<rightharpoonup> 'v protoState"
  destroyCallbacks :: "nat \<Rightarrow> (nat \<times> entry) list"
  console :: "string list"

datatype error =
    NullInjectorError string
  | Error string
  | TypeError string
  | DanglingReference

text \<open>
  \<open>NullInjectorError\<close> is the framework's own failure of a required \<open>inject\<close>, carrying
  the description of the token; \<open>Error\<close> is a \<open>throw new Error(message)\<close> of the
  source; \<open>TypeError\<close> is a call of a deleted method. \<open>DanglingReference\<close> marks the
  branch where an address has no object: JavaScript has no such state and no world built
  by the factories below reaches it.
\<close>

text \<open>\<open>cSignal.update(f)\<close> on the children signal owned by \<open>a\<close>.\<close>

definition updateChildren :: "nat \<Rightarrow> (entry list \<Rightarrow> entry list) \<Rightarrow> 'v world \<Rightarrow> 'v world" where
  "updateChildren a f w =
     (case protos w a of
        None \<Rightarrow> w
      | Some p \<Rightarrow> w\<lparr> protos := (protos w)(a \<mapsto> p\<lparr> allChildren := f (allChildren p) \<rparr>) \<rparr>)"

definition readAllChildren :: "'v world \<Rightarrow> nat \<Rightarrow> entry list" where
  "readAllChildren w a = (case protos w a of None \<Rightarrow> [] | Some p \<Rightarrow> allChildren p)"




section \<open>Scopes: the framework's hierarchical lookup\<close>

text \<open>
  The host framework's injector is not part of the repository. What the code relies on
  (specification, section 6): a value provided at a tree position is visible there and
  below, and a closer provider shadows a farther one; a \<open>multi\<close> provider collects the
  values registered at one position, in registration order (host directives before their
  host), and is shadowed as a whole like any other provider. A scope records, per token
  address, what is registered at one position: the proto state created by
  \<open>provideState()\<close> (one entry for the internal and the public token, which are provided
  together; of several \<open>provideState()\<close> of one kind the last), the hook lists given to
  the \<open>provideHooks(...)\<close> registered there, one list for each registration and in
  registration order, the contributions given to \<open>provideConfig(...)\<close> (a thunk by the
  value it returns), and the value of \<open>PROTO_ANCESTRY_CHAIN\<close> (of the last
  \<open>provideState()\<close> registered there, of whatever kind). Of several providers of one
  token that is not \<open>multi\<close> at one position the framework keeps the last registered.
  A lookup context is the list of scopes from the current position to the root.
\<close>

record 'v scope =
  stateProviders :: "nat \<rightharpoonup> nat"
  hooksProviders :: "nat \<Rightarrow> (nat \<Rightarrow> 'v world \<Rightarrow> 'v world) list list"
  configContributions :: "nat \<Rightarrow> cfg list"
  ancestryChain :: "entry list option"

definition emptyScope :: "'v scope" where
  "emptyScope = \<lparr> stateProviders = Map.empty, hooksProviders = (\<lambda>_. []),
                  configContributions = (\<lambda>_. []), ancestryChain = None \<rparr>"

text \<open>\<open>InjectOptions\<close>; \<open>self\<close> and \<open>host\<close> are not modelled.\<close>

record injectOptions =
  optional :: bool
  skipSelf :: bool

definition noOptions :: injectOptions where
  "noOptions = \<lparr> optional = False, skipSelf = False \<rparr>"

definition visibleScopes :: "injectOptions \<Rightarrow> 's list \<Rightarrow> 's list" where
  "visibleScopes opts scopes = (if skipSelf opts then tl scopes else scopes)"

fun lookupProvider :: "('s \<Rightarrow> 'a option) \<Rightarrow> 's list \<Rightarrow> 'a option" where
  "lookupProvider provided [] = None"
| "lookupProvider provided (s # rest) =
     (case provided s of Some x \<Rightarrow> Some x | None \<Rightarrow> lookupProvider provided rest)"

section \<open>The proto factory (proto.ts, \<open>createProto\<close>)\<close>

text \<open>
  What the closure returned by \<open>createProto(defaultConfig)(type)\<close> holds: the name of
  the node kind, the default configuration (\<open>None\<close> when no argument was given; a thunk
  is taken by its value) and the five tokens it creates. The handles \<open>state\<close>,
  \<open>config\<close> and \<open>hooks\<close> it returns are the functions defined below.
\<close>

record protoDef =
  name :: string
  defaultConfig :: "cfg option"
  internalProtoToken :: token
  publicToken :: token
  configToken :: token
  configContributionToken :: token
  hooksToken :: token

definition createProto :: "cfg option \<Rightarrow> string \<Rightarrow> nat \<Rightarrow> protoDef \<times> nat" where
  "createProto dflt nm nxt =
     (\<lparr> name = nm,
        defaultConfig = dflt,
        internalProtoToken = \<lparr> tid = nxt, desc = ''ProtoInternalState:'' @ nm \<rparr>,
        publicToken = \<lparr> tid = nxt + 1, desc = ''ProtoToken:'' @ nm \<rparr>,
        configToken = \<lparr> tid = nxt + 2, desc = ''ProtoConfig:'' @ nm \<rparr>,
        configContributionToken = \<lparr> tid = nxt + 3, desc = ''ProtoConfigContribution:'' @ nm \<rparr>,
        hooksToken = \<lparr> tid = nxt + 4, desc = ''ProtoHooks:'' @ nm \<rparr> \<rparr>, nxt + 5)"

subsection \<open>Configuration\<close>

text \<open>
  The \<open>multi\<close> provider of \<open>configContributionToken\<close> exists at a scope when at least
  one \<open>provideConfig\<close> was registered there.
\<close>

definition contributionsAt :: "nat \<Rightarrow> 'v scope \<Rightarrow> cfg list option" where
  "contributionsAt k s = (if configContributions s k = [] then None else Some (configContributions s k))"

text \<open>
  \<open>injectConfig(opts)\<close>: one lookup of the contribution token, with \<open>optional: true\<close>,
  then \<open>deepMerge(defaultCfg, ...contributions)\<close>.
\<close>

definition injectConfig :: "protoDef \<Rightarrow> injectOptions \<Rightarrow> 'v scope list \<Rightarrow> cfg" where
  "injectConfig d opts scopes =
     (let contributions =
            (case lookupProvider (contributionsAt (tid (configContributionToken d)))
                    (visibleScopes (opts\<lparr> optional := True \<rparr>) scopes) of
               None \<Rightarrow> []
             | Some cs \<Rightarrow> cs);
          defaultCfg = (case defaultConfig d of None \<Rightarrow> Obj [] | Some c \<Rightarrow> c)
      in deepMerge defaultCfg contributions)"

subsection \<open>Hooks\<close>

text \<open>
  \<open>hooksToken\<close> is not a \<open>multi\<close> token: of the \<open>provideHooks(...)\<close> registered at
  one position, the last is the provider in effect there.
\<close>

definition hooksInEffect ::
  "nat \<Rightarrow> 'v scope \<Rightarrow> (nat \<Rightarrow> 'v world \<Rightarrow> 'v world) list option" where
  "hooksInEffect k s =
     (if hooksProviders s k = [] then None else Some (last (hooksProviders s k)))"

text \<open>
  The value of \<open>hooksToken\<close> seen from a lookup context: the nearest scope with a
  provider answers, and the factory of \<open>provideHooks(...hooks)\<close> returns
  \<open>[...(parent ?? []), ...hooks]\<close> where \<open>parent\<close> (here \<open>inherited\<close>) is the same
  token looked up with \<open>skipSelf\<close>, that is from the enclosing scopes.
\<close>

fun hooksValue :: "nat \<Rightarrow> 'v scope list \<Rightarrow> (nat \<Rightarrow> 'v world \<Rightarrow> 'v world) list option" where
  "hooksValue k [] = None"
| "hooksValue k (s # rest) =
     (case hooksInEffect k s of
        None \<Rightarrow> hooksValue k rest
      | Some hooks \<Rightarrow>
          Some ((case hooksValue k rest of None \<Rightarrow> [] | Some inherited \<Rightarrow> inherited) @ hooks))"

definition injectHooks ::
  "protoDef \<Rightarrow> injectOptions \<Rightarrow> 'v scope list \<Rightarrow> (nat \<Rightarrow> 'v world \<Rightarrow> 'v world) list" where
  "injectHooks d opts scopes =
     (case hooksValue (tid (hooksToken d)) (visibleScopes (opts\<lparr> optional := True \<rparr>) scopes) of
        None \<Rightarrow> []
      | Some hooks \<Rightarrow> hooks)"

text \<open>
  Two readings of "the hooks of a scope" for a kind: every hook that some
  \<open>provideHooks\<close> registered at the position was given (\<open>providedHooks\<close>), and the hooks
  of the provider in effect there (\<open>hooksOfProvider\<close>). They are the same list where a
  position registers at most one \<open>provideHooks\<close> of the kind.
\<close>

definition providedHooks :: "protoDef \<Rightarrow> 'v scope \<Rightarrow> (nat \<Rightarrow> 'v world \<Rightarrow> 'v world) list" where
  "providedHooks d s = concat (hooksProviders s (tid (hooksToken d)))"

definition hooksOfProvider :: "protoDef \<Rightarrow> 'v scope \<Rightarrow> (nat \<Rightarrow> 'v world \<Rightarrow> 'v world) list" where
  "hooksOfProvider d s =
     (case hooksInEffect (tid (hooksToken d)) s of None \<Rightarrow> [] | Some hooks \<Rightarrow> hooks)"

text \<open>\<open>for (const hook of hooks) hook(proto)\<close>.\<close>

definition runHooks :: "(nat \<Rightarrow> 'v world \<Rightarrow> 'v world) list \<Rightarrow> nat \<Rightarrow> 'v world \<Rightarrow> 'v world" where
  "runHooks hooks proto w = fold (\<lambda>hook. hook proto) hooks w"

subsection \<open>State: the three factories of \<open>provideState()\<close>\<close>

text \<open>The framework's lookup of the proto state a kind's tokens resolve to.\<close>

definition resolveState :: "token \<Rightarrow> injectOptions \<Rightarrow> 'v scope list \<Rightarrow> nat option" where
  "resolveState tok opts scopes =
     lookupProvider (\<lambda>s. stateProviders s (tid tok)) (visibleScopes opts scopes)"

text \<open>
  \<open>inject(PROTO_ANCESTRY_CHAIN, { optional: true, skipSelf: true }) ?? []\<close>, from the
  scope being set up (the head of the context).
\<close>

definition injectChain :: "'v scope list \<Rightarrow> entry list" where
  "injectChain scopes =
     (case lookupProvider ancestryChain (tl scopes) of None \<Rightarrow> [] | Some chain \<Rightarrow> chain)"

text \<open>
  The loop \<open>for (const ancestor of chain)\<close>: appends \<open>selfEntry\<close> to the children
  signal of each ancestor and registers the removal with the node's \<open>DestroyRef\<close>.
\<close>

fun registerWithAncestors :: "entry list \<Rightarrow> nat \<Rightarrow> entry \<Rightarrow> 'v world \<Rightarrow> 'v world" where
  "registerWithAncestors [] self selfEntry w = w"
| "registerWithAncestors (ancestor # rest) self selfEntry w =
     registerWithAncestors rest self selfEntry
       ((updateChildren (estate ancestor) (\<lambda>c. c @ [selfEntry]) w)
          \<lparr> destroyCallbacks :=
              (destroyCallbacks w)(self := destroyCallbacks w self @ [(estate ancestor, selfEntry)]) \<rparr>)"

text \<open>
  The objects the factory of \<open>internalProtoToken\<close> allocates in a world \<open>w\<close>: the proto
  state at \<open>nextRef w\<close>, the same-kind computed signal after it, then \<open>selfEntry\<close>.
\<close>

definition newSelfEntry :: "protoDef \<Rightarrow> 'v world \<Rightarrow> entry" where
  "newSelfEntry d w = \<lparr> eref = nextRef w + 2, etoken = publicToken d, estate = nextRef w \<rparr>"

definition internalFactory :: "protoDef \<Rightarrow> 'v scope list \<Rightarrow> 'v world \<Rightarrow> nat \<times> 'v world" where
  "internalFactory d scopes w =
     (let chain = injectChain scopes;
          self = nextRef w;
          props = \<lparr> source = None, hasSet = True, hasUpdate = True,
                    protoId = self,
                    protoName = name d,
                    config = injectConfig d noOptions scopes,
                    ancestry = fst (createProtoAncestry chain (publicToken d) self (Suc self)),
                    allChildren = [] \<rparr>;
          w1 = w\<lparr> nextRef := nextRef w + 3, protos := (protos w)(self \<mapsto> props) \<rparr>
      in (self, registerWithAncestors chain self (newSelfEntry d w) w1))"

text \<open>
  The factory of \<open>publicToken\<close>: \<open>delete publicProto.set; delete publicProto.update\<close> on
  the object obtained from the internal token, which is then returned itself.
\<close>

definition deleteMutators :: "nat \<Rightarrow> 'v world \<Rightarrow> 'v world" where
  "deleteMutators proto w =
     (case protos w proto of
        None \<Rightarrow> w
      | Some p \<Rightarrow> w\<lparr> protos := (protos w)(proto \<mapsto> p\<lparr> hasSet := False, hasUpdate := False \<rparr>) \<rparr>)"

definition publicFactory :: "nat \<Rightarrow> 'v world \<Rightarrow> nat \<times> 'v world" where
  "publicFactory proto w = (proto, deleteMutators proto w)"

text \<open>
  The factory of \<open>PROTO_ANCESTRY_CHAIN\<close>: \<open>[...chain, entry]\<close> with a new entry object
  for the current proto.
\<close>

definition chainFactory ::
  "protoDef \<Rightarrow> 'v scope list \<Rightarrow> nat \<Rightarrow> 'v world \<Rightarrow> entry list \<times> 'v world" where
  "chainFactory d scopes currentProto w =
     (injectChain scopes @ [\<lparr> eref = nextRef w, etoken = publicToken d, estate = currentProto \<rparr>],
      w\<lparr> nextRef := Suc (nextRef w) \<rparr>)"

text \<open>
  Setting up a position that lists \<open>provideState()\<close>: the internal token and the chain
  are instantiated and recorded in the head scope. The public token's factory runs when
  the token is injected; a factory runs once per scope and its result is kept, and since
  deleting a property twice is deleting it once, \<open>injectPublic\<close> below applies it at
  every lookup. A \<open>provideState()\<close> of another kind registered later at the same
  position replaces the chain recorded there, its provider being the last.
\<close>

definition provideState :: "protoDef \<Rightarrow> 'v scope list \<Rightarrow> 'v world \<Rightarrow> 'v scope list \<times> 'v world" where
  "provideState d scopes w =
     (case scopes of
        [] \<Rightarrow> ([], w)
      | s # rest \<Rightarrow>
          (case internalFactory d scopes w of
             (self, w1) \<Rightarrow>
               (case chainFactory d scopes self w1 of
                  (chain, w2) \<Rightarrow>
                    (s\<lparr> stateProviders := (stateProviders s)(tid (publicToken d) \<mapsto> self),
                        ancestryChain := Some chain \<rparr> # rest, w2))))"

text \<open>
  \<open>inject(token, opts)\<close> for the public token of some kind: a missing provider gives
  \<open>null\<close> when optional and the framework's error otherwise.
\<close>

definition injectPublic ::
  "token \<Rightarrow> injectOptions \<Rightarrow> 'v scope list \<Rightarrow> 'v world \<Rightarrow> error + (nat option \<times> 'v world)" where
  "injectPublic tok opts scopes w =
     (case resolveState tok opts scopes of
        None \<Rightarrow> (if optional opts then Inr (None, w) else Inl (NullInjectorError (desc tok)))
      | Some proto \<Rightarrow> Inr (Some (fst (publicFactory proto w)), snd (publicFactory proto w)))"

text \<open>The signal's value is an object or \<open>null\<close>, so \<open>!state()\<close> holds exactly on \<open>null\<close>.\<close>

definition uninitialised :: "'v world \<Rightarrow> nat \<Rightarrow> bool" where
  "uninitialised w proto = (case protos w proto of None \<Rightarrow> True | Some p \<Rightarrow> source p = None)"

definition injectState ::
  "protoDef \<Rightarrow> injectOptions \<Rightarrow> 'v scope list \<Rightarrow> 'v world \<Rightarrow> error + (nat option \<times> 'v world)" where
  "injectState d opts scopes w =
     (case injectPublic (publicToken d) opts scopes w of
        Inl e \<Rightarrow> Inl e
      | Inr (state, w1) \<Rightarrow>
          if \<not> optional opts \<and> (case state of None \<Rightarrow> True | Some proto \<Rightarrow> uninitialised w1 proto)
          then Inl (Error (name d @ '' proto not initialized. Call '' @ name d
                           @ ''Proto.initState() in your component or directive constructor.''))
          else Inr (state, w1))"

text \<open>\<open>injectProtoAncestor\<close> and \<open>injectProtoParent\<close> of proto-ancestry.ts.\<close>

definition injectProtoAncestor ::
  "token \<Rightarrow> injectOptions \<Rightarrow> 'v scope list \<Rightarrow> 'v world \<Rightarrow> error + (nat option \<times> 'v world)" where
  "injectProtoAncestor tok options scopes w =
     (case injectPublic tok (options\<lparr> optional := True, skipSelf := True \<rparr>) scopes w of
        Inl e \<Rightarrow> Inl e
      | Inr (state, w1) \<Rightarrow>
          if state = None \<and> \<not> optional options
          then Inl (Error (''Required ancestor state not found. ''
                           @ ''Ensure the parent proto is present in the DOM hierarchy.''))
          else Inr (state, w1))"

definition injectProtoParent ::
  "token \<Rightarrow> injectOptions \<Rightarrow> 'v scope list \<Rightarrow> 'v world \<Rightarrow> error + (nat option \<times> 'v world)" where
  "injectProtoParent tok options scopes w = injectPublic tok (options\<lparr> skipSelf := True \<rparr>) scopes w"

subsection \<open>The initializer\<close>

definition alreadyInitialised :: "string \<Rightarrow> string" where
  "alreadyInitialised nm =
     ''[angular-proto] '' @ nm @ ''Proto(instance) was called more than once. ''
     @ nm @ ''Proto(instance) should only be called once in the constructor.''"

definition noInputsWarning :: "string \<Rightarrow> string" where
  "noInputsWarning nm =
     ''[angular-proto] '' @ nm @ ''Proto.initState() called but no input signals found. ''
     @ ''Did you forget to declare inputs with input()?''"

text \<open>\<open>return inject(publicToken)\<close>: a required lookup.\<close>

definition returnPublic :: "protoDef \<Rightarrow> 'v scope list \<Rightarrow> 'v world \<Rightarrow> error + (nat \<times> 'v world)" where
  "returnPublic d scopes w =
     (case injectPublic (publicToken d) noOptions scopes w of
        Inl e \<Rightarrow> Inl e
      | Inr (None, w1) \<Rightarrow> Inl (NullInjectorError (desc (publicToken d)))
      | Inr (Some proto, w1) \<Rightarrow> Inr (proto, w1))"

text \<open>
  The steps of \<open>initState\<close> that write: the development-mode \<open>console.warn\<close> when no
  input signal was found, and \<open>proto.set(instance)\<close>.
\<close>

definition warnNoInputs :: "bool \<Rightarrow> protoDef \<Rightarrow> nat \<Rightarrow> 'v world \<Rightarrow> 'v world" where
  "warnNoInputs devMode d inputCount w =
     (if devMode \<and> inputCount = 0
      then w\<lparr> console := console w @ [noInputsWarning (name d)] \<rparr>
      else w)"

definition setSource :: "nat \<Rightarrow> (string \<times> 'v protoField) list \<Rightarrow> 'v world \<Rightarrow> 'v world" where
  "setSource proto v w =
     (case protos w proto of
        None \<Rightarrow> w
      | Some obj \<Rightarrow> w\<lparr> protos := (protos w)(proto \<mapsto> obj\<lparr> source := Some v \<rparr>) \<rparr>)"

text \<open>
  \<open>initState(instance)\<close>, with \<open>isDevMode()\<close> as the first argument. \<open>proto()\<close> is
  truthy exactly when the state slot is not \<open>null\<close>. \<open>proto.set\<close> is a call of the
  object's own \<open>set\<close> property, a \<open>TypeError\<close> once the property has been deleted.
\<close>

definition initState ::
  "bool \<Rightarrow> protoDef \<Rightarrow> 'v scope list \<Rightarrow> (string \<times> 'v rawField) list \<Rightarrow> 'v world
     \<Rightarrow> error + (nat \<times> 'v world)" where
  "initState devMode d scopes instance w =
     (case resolveState (publicToken d) noOptions scopes of
        None \<Rightarrow> Inl (NullInjectorError (desc (internalProtoToken d)))
      | Some proto \<Rightarrow>
          (case protos w proto of
             None \<Rightarrow> Inl DanglingReference
           | Some obj \<Rightarrow>
               if source obj \<noteq> None then
                 (if devMode then Inl (Error (alreadyInitialised (name d)))
                  else returnPublic d scopes w)
               else
                 (let hooks = injectHooks d noOptions scopes;
                      wrapped = fst (wrapInputs instance);
                      inputCount = snd (wrapInputs instance);
                      w1 = warnNoInputs devMode d inputCount w
                  in if \<not> hasSet obj then Inl (TypeError ''proto.set is not a function'')
                     else returnPublic d scopes (runHooks hooks proto (setSource proto wrapped w1)))))"

subsection \<open>Destruction\<close>

text \<open>
  Destroying a node runs the callbacks it registered with \<open>destroyRef.onDestroy\<close>, in
  registration order; each is \<open>cSignal.update(c => c.filter(p => p !== selfEntry))\<close>.
\<close>

definition destroy :: "nat \<Rightarrow> 'v world \<Rightarrow> 'v world" where
  "destroy self w =
     fold (\<lambda>cb. updateChildren (fst cb) (filter (\<lambda>p. eref p \<noteq> eref (snd cb))))
          (destroyCallbacks w self) w"

section \<open>Example kinds and worlds\<close>

text \<open>
  Two node kinds as \<open>createProto\<close> builds them, \<open>ParentDir\<close> first and \<open>ChildDir\<close>
  second, named after the directives of the repository's ancestry tests.
\<close>

definition parentDir :: protoDef where
  "parentDir = fst (createProto None ''ParentDir'' 0)"

definition childDir :: protoDef where
  "childDir = fst (createProto None ''ChildDir'' 5)"

definition tokParent :: token where
  "tokParent = \<lparr> tid = 1, desc = ''ProtoToken:ParentDir'' \<rparr>"

definition tokChild :: token where
  "tokChild = \<lparr> tid = 6, desc = ''ProtoToken:ChildDir'' \<rparr>"

text \<open>A world with no node yet; addresses below 10 are taken by the tokens above.\<close>

definition emptyWorld :: "bool world" where
  "emptyWorld = \<lparr> nextRef = 10, protos = Map.empty, destroyCallbacks = (\<lambda>_. []), console = [] \<rparr>"

text \<open>A hook that writes a line to the console, to make the order of hooks visible.\<close>

definition logHook :: "string \<Rightarrow> nat \<Rightarrow> bool world \<Rightarrow> bool world" where
  "logHook line proto w = w\<lparr> console := console w @ [line] \<rparr>"

text \<open>
  One \<open>ParentDir\<close> node below a position that only contributes a hook: the context
  before and after \<open>provideState()\<close> is set up, and the world after it.
\<close>

definition rootHookScope :: "bool scope" where
  "rootHookScope =
     emptyScope\<lparr> hooksProviders := (\<lambda>_. [])(tid (hooksToken parentDir) := [[logHook ''root'']]) \<rparr>"

definition leafHookScope :: "bool scope" where
  "leafHookScope =
     emptyScope\<lparr> hooksProviders := (\<lambda>_. [])(tid (hooksToken parentDir) := [[logHook ''leaf'']]) \<rparr>"

definition hookContext :: "bool scope list" where
  "hookContext = [leafHookScope, rootHookScope]"

definition nodeContext :: "bool scope list" where
  "nodeContext = fst (provideState parentDir hookContext emptyWorld)"

definition nodeWorld :: "bool world" where
  "nodeWorld = snd (provideState parentDir hookContext emptyWorld)"

definition nodeInstance :: "(string \<times> bool rawField) list" where
  "nodeInstance = [(''disabled'', InputSignal False), (''label'', OtherField True)]"

text \<open>The world after the node's first \<open>initState\<close> (production mode).\<close>

definition initialisedWorld :: "bool world" where
  "initialisedWorld =
     (case initState False parentDir nodeContext nodeInstance nodeWorld of
        Inl e \<Rightarrow> nodeWorld
      | Inr (proto, w) \<Rightarrow> w)"

text \<open>
  The kind of the repository's configuration test (\<open>testConfig\<close> and the three
  contributions of "should inherit config from grandparent"). The grandparent and the
  parent are host directives of the component that provides the state, so the three
  contributions are registered at one position, host directives first
  (\<open>hostDirectiveScope\<close>). \<open>tieredContext\<close> registers two of them at different tree
  positions instead: the component's own at the node, the grandparent's one level up.
\<close>

definition testConfig :: cfg where
  "testConfig =
     Obj [(''a'', Obj [(''a'', Num 0), (''b'', Num 0), (''c'', Num 0)]),
          (''b'', Obj [(''a'', Num 0), (''b'', Num 0), (''c'', Num 0)]),
          (''c'', Num 0),
          (''d'', Num 0)]"

definition protoTest :: protoDef where
  "protoTest = fst (createProto (Some testConfig) ''ProtoTestComp'' 0)"

definition grandparentContribution :: cfg where
  "grandparentContribution = Obj [(''a'', Obj [(''a'', Num 1)])]"

definition parentContribution :: cfg where
  "parentContribution = Obj [(''b'', Obj [(''a'', Num 2), (''b'', Num 2)])]"

definition selfContribution :: cfg where
  "selfContribution =
     Obj [(''a'', Obj [(''b'', Num 3)]),
          (''b'', Obj [(''b'', Num 3), (''c'', Num 3)]),
          (''c'', Num 3)]"

definition hostDirectiveScope :: "bool scope" where
  "hostDirectiveScope =
     emptyScope\<lparr> configContributions :=
       (\<lambda>_. [])(tid (configContributionToken protoTest) :=
          [grandparentContribution, parentContribution, selfContribution]) \<rparr>"

definition tieredContext :: "bool scope list" where
  "tieredContext =
     [emptyScope\<lparr> configContributions :=
        (\<lambda>_. [])(tid (configContributionToken protoTest) := [selfContribution]) \<rparr>,
      emptyScope\<lparr> configContributions :=
        (\<lambda>_. [])(tid (configContributionToken protoTest) := [grandparentContribution]) \<rparr>]"

text \<open>
  What the configuration would be if every contribution from the root to the node took
  part, root-most first.
\<close>

definition allContributions :: "protoDef \<Rightarrow> 'v scope list \<Rightarrow> cfg list" where
  "allContributions d scopes =
     concat (map (\<lambda>s. configContributions s (tid (configContributionToken d))) (rev scopes))"

text \<open>
  A three-level tree as in the repository's ancestry tests: below the \<open>ParentDir\<close> node
  of \<open>nodeContext\<close> a \<open>ChildDir\<close> node, and below that a second \<open>ParentDir\<close> node.
  \<open>midFactoryWorld\<close> is the world when the internal factory of the \<open>ChildDir\<close> node has
  run, \<open>midWorld\<close> the world when the node's position is set up, \<open>leafWorld\<close> the world
  when the internal factory of the inner \<open>ParentDir\<close> node has run.
\<close>

definition midFactoryWorld :: "bool world" where
  "midFactoryWorld = snd (internalFactory childDir (emptyScope # nodeContext) nodeWorld)"

definition midContext :: "bool scope list" where
  "midContext = fst (provideState childDir (emptyScope # nodeContext) nodeWorld)"

definition midWorld :: "bool world" where
  "midWorld = snd (provideState childDir (emptyScope # nodeContext) nodeWorld)"

definition leafWorld :: "bool world" where
  "leafWorld = snd (internalFactory parentDir (emptyScope # midContext) midWorld)"

text \<open>The entries the factories allocate in that tree.\<close>

definition rootChainEntry :: entry where
  "rootChainEntry = \<lparr> eref = 13, etoken = publicToken parentDir, estate = 10 \<rparr>"

definition midSelfEntry :: entry where
  "midSelfEntry = \<lparr> eref = 16, etoken = publicToken childDir, estate = 14 \<rparr>"

definition midChainEntry :: entry where
  "midChainEntry = \<lparr> eref = 17, etoken = publicToken childDir, estate = 14 \<rparr>"

definition leafSelfEntry :: entry where
  "leafSelfEntry = \<lparr> eref = 20, etoken = publicToken parentDir, estate = 18 \<rparr>"

text \<open>
  The chain factory gives the \<open>ChildDir\<close> node a second entry object,
  \<open>midChainEntry\<close>, with the field values of \<open>midSelfEntry\<close>. \<open>twinWorld\<close> is
  \<open>leafWorld\<close> with that second object also put into the root's descendant set, so
  that the set holds two entries that differ in nothing but their address.
\<close>

definition twinWorld :: "bool world" where
  "twinWorld = updateChildren 10 (\<lambda>c. c @ [midChainEntry]) leafWorld"

text \<open>
  A position where a host directive and its host each register a \<open>provideHooks\<close> of
  \<open>ParentDir\<close> (the directive's first), and the host lists \<open>provideState()\<close>.
\<close>

definition stackedHooks :: "bool scope list" where
  "stackedHooks =
     [emptyScope\<lparr> hooksProviders :=
        (\<lambda>_. [])(tid (hooksToken parentDir) := [[logHook ''directive''], [logHook ''host'']]) \<rparr>]"

definition stackedContext :: "bool scope list" where
  "stackedContext = fst (provideState parentDir stackedHooks emptyWorld)"

definition stackedWorld :: "bool world" where
  "stackedWorld = snd (provideState parentDir stackedHooks emptyWorld)"





section \<open>Lookups in the ancestry chain\<close>

lemma find_app:
  "find P (xs @ ys) = (case find P xs of None \<Rightarrow> find P ys | Some x \<Rightarrow> Some x)"
  by (induction xs) auto

lemma find_none_skip:
  "\<forall>e \<in> set ys. \<not> P e \<Longrightarrow> find P (rev ys @ zs) = find P zs"
proof -
  assume "\<forall>e \<in> set ys. \<not> P e"
  then have "find P (rev ys) = None" by (simp add: find_None_iff)
  then show ?thesis by (simp add: find_app)
qed

lemma find_rev_split:
  "find P (rev chain) = Some p \<Longrightarrow>
     \<exists>farther nearer. chain = farther @ p # nearer \<and> P p \<and> (\<forall>e \<in> set nearer. \<not> P e)"
proof (induction chain rule: rev_induct)
  case Nil
  then show ?case by simp
next
  case (snoc x xs)
  show ?case
  proof (cases "P x")
    case True
    with snoc.prems have "p = x" by simp
    with True show ?thesis by (intro exI[of _ xs] exI[of _ "[]"]) simp
  next
    case False
    with snoc.prems have "find P (rev xs) = Some p" by simp
    from snoc.IH[OF this] obtain farther nearer where
      "xs = farther @ p # nearer" "P p" "\<forall>e \<in> set nearer. \<not> P e" by blast
    with False show ?thesis
      by (intro exI[of _ farther] exI[of _ "nearer @ [x]"]) simp
  qed
qed

lemma parent_fresh:
  "fst (parent (fst (createProtoAncestry chain tok sig nxt))) =
     find (\<lambda>e. sameToken (etoken e) tok) (rev chain)"
  by (simp add: parent_def createProtoAncestry_def Let_def)

lemma parent_cached:
  "fst (parent (snd (parent a))) = fst (parent a)"
  by (simp add: parent_def Let_def split: option.splits)

text \<open>
  Claim C5. The chain handed to \<open>createProtoAncestry\<close> lists the ancestors root first,
  so the nearest ancestor is its last element. For the ancestry view built for a node of
  kind \<open>tok\<close>: \<open>parent\<close> is \<open>null\<close> exactly when no entry of the chain has that kind;
  otherwise it is an entry of that kind such that no entry nearer to the node has it.
  Reading \<open>parent\<close> again (from the cache) gives the same answer. And when the chain
  ends with a same-kind entry \<open>q\<close>, putting any number of entries of other kinds between
  \<open>q\<close> and the node leaves \<open>parent\<close> at \<open>q\<close>.
\<close>

theorem parent_nearest_same_kind:
  "(case fst (parent (fst (createProtoAncestry chain tok sig nxt))) of
      None \<Rightarrow> (\<forall>e \<in> set chain. \<not> sameToken (etoken e) tok)
    | Some p \<Rightarrow> (\<exists>farther nearer. chain = farther @ p # nearer \<and> sameToken (etoken p) tok
                   \<and> (\<forall>e \<in> set nearer. \<not> sameToken (etoken e) tok)))
   \<and> fst (parent (snd (parent (fst (createProtoAncestry chain tok sig nxt)))))
       = fst (parent (fst (createProtoAncestry chain tok sig nxt)))
   \<and> ((\<forall>e \<in> set between. \<not> sameToken (etoken e) tok) \<and> sameToken (etoken q) tok \<longrightarrow>
        fst (parent (fst (createProtoAncestry (outer @ q # between) tok sig nxt))) = Some q
        \<and> fst (parent (fst (createProtoAncestry (outer @ [q]) tok sig nxt))) = Some q)"
proof (intro conjI impI)
  let ?P = "\<lambda>e. sameToken (etoken e) tok"
  show "case fst (parent (fst (createProtoAncestry chain tok sig nxt))) of
      None \<Rightarrow> (\<forall>e \<in> set chain. \<not> sameToken (etoken e) tok)
    | Some p \<Rightarrow> (\<exists>farther nearer. chain = farther @ p # nearer \<and> sameToken (etoken p) tok
                   \<and> (\<forall>e \<in> set nearer. \<not> sameToken (etoken e) tok))"
  proof (cases "find ?P (rev chain)")
    case None
    then have "\<forall>e \<in> set chain. \<not> ?P e" by (auto simp: find_None_iff)
    with None show ?thesis by (simp add: parent_fresh)
  next
    case (Some p)
    from find_rev_split[OF Some] Some show ?thesis by (simp add: parent_fresh)
  qed
next
  show "fst (parent (snd (parent (fst (createProtoAncestry chain tok sig nxt)))))
       = fst (parent (fst (createProtoAncestry chain tok sig nxt)))"
    by (rule parent_cached)
next
  assume h: "(\<forall>e \<in> set between. \<not> sameToken (etoken e) tok) \<and> sameToken (etoken q) tok"
  then have "find (\<lambda>e. sameToken (etoken e) tok) (rev between @ q # rev outer) = Some q"
    by (simp add: find_none_skip)
  then show "fst (parent (fst (createProtoAncestry (outer @ q # between) tok sig nxt))) = Some q"
    by (simp add: parent_fresh)
next
  assume h: "(\<forall>e \<in> set between. \<not> sameToken (etoken e) tok) \<and> sameToken (etoken q) tok"
  then show "fst (parent (fst (createProtoAncestry (outer @ [q]) tok sig nxt))) = Some q"
    by (simp add: parent_fresh)
qed

text \<open>
  The chain of the test fixture \<open>p1 > p2 > c1 > p3\<close>, seen from \<open>p3\<close>: the parent is
  \<open>p2\<close> with \<open>c1\<close> in between, as it is without \<open>c1\<close>.
\<close>

theorem parent_nearest_same_kind_witness:
  "fst (parent (fst (createProtoAncestry
      [\<lparr> eref = 13, etoken = tokParent, estate = 10 \<rparr>,
       \<lparr> eref = 17, etoken = tokParent, estate = 14 \<rparr>,
       \<lparr> eref = 21, etoken = tokChild, estate = 18 \<rparr>] tokParent 22 23)))
   = Some \<lparr> eref = 17, etoken = tokParent, estate = 14 \<rparr>
   \<and> fst (parent (fst (createProtoAncestry
      [\<lparr> eref = 13, etoken = tokParent, estate = 10 \<rparr>,
       \<lparr> eref = 17, etoken = tokParent, estate = 14 \<rparr>] tokParent 22 23)))
   = Some \<lparr> eref = 17, etoken = tokParent, estate = 14 \<rparr>"
  using parent_nearest_same_kind
    [of "[\<lparr> eref = 13, etoken = tokParent, estate = 10 \<rparr>,
          \<lparr> eref = 17, etoken = tokParent, estate = 14 \<rparr>,
          \<lparr> eref = 21, etoken = tokChild, estate = 18 \<rparr>]" tokParent 22 23
        "[\<lparr> eref = 21, etoken = tokChild, estate = 18 \<rparr>]"
        "\<lparr> eref = 17, etoken = tokParent, estate = 14 \<rparr>"
        "[\<lparr> eref = 13, etoken = tokParent, estate = 10 \<rparr>]"]
  by (simp add: sameToken_def tokParent_def tokChild_def)

section \<open>The cache of \<open>childrenOfType\<close>\<close>

lemma childrenOfType_cache_kept:
  "childrenByTypeCache (fst s) k = Some c \<Longrightarrow>
     childrenByTypeCache (fst (snd (childrenOfType t s))) k = Some c"
  by (cases s) (auto simp: childrenOfType_def Let_def split: option.splits)

lemma childrenOfTypeCalls_cache_kept:
  "childrenByTypeCache (fst s) k = Some c \<Longrightarrow>
     childrenByTypeCache (fst (childrenOfTypeCalls ts s)) k = Some c"
  by (induction ts arbitrary: s) (auto simp: childrenOfType_cache_kept)

lemma childrenOfType_fills_cache:
  "childrenByTypeCache (fst (snd (childrenOfType tok s))) (tid tok) = Some (fst (childrenOfType tok s))"
  by (cases s) (auto simp: childrenOfType_def Let_def split: option.splits)

lemma childrenOfType_hit:
  "childrenByTypeCache a (tid tok) = Some c \<Longrightarrow> fst (childrenOfType tok (a, n)) = c"
  by (simp add: childrenOfType_def)

text \<open>
  Claim C7. For every ancestry view and every token: once \<open>childrenOfType\<close> has been
  called with the token, a later call with the same token returns the very same computed
  signal (same address, same source, same filter), whatever other \<open>childrenOfType\<close>
  calls (\<open>ts\<close>) and whatever other allocations (\<open>n\<close>) happened in between.
\<close>

theorem childrenOfType_same_handle:
  "fst (childrenOfType tok (fst (childrenOfTypeCalls ts (snd (childrenOfType tok s))), n))
     = fst (childrenOfType tok s)"
  by (rule childrenOfType_hit)
     (rule childrenOfTypeCalls_cache_kept, rule childrenOfType_fills_cache)

section \<open>Required lookups\<close>

text \<open>
  Claim C9, as amended. A required lookup with no provider in scope fails at the call:
  the state handle's \<open>inject\<close> fails inside the framework's \<open>inject\<close>, with the
  missing-provider error that carries the description of the kind's public token,
  \<open>ProtoToken:<name>\<close>; when a provider is found but the node is not initialised it fails
  with the repository's message, which starts with the name of the kind and tells to
  call the initializer; \<open>injectProtoAncestor\<close> fails with one fixed message, which asks
  for the parent proto to be present in the hierarchy and does not depend on the token.
\<close>

theorem required_lookup_errors:
  "(resolveState (publicToken d) (opts\<lparr> optional := False \<rparr>) scopes = None \<longrightarrow>
      injectState d (opts\<lparr> optional := False \<rparr>) scopes w
        = Inl (NullInjectorError (desc (publicToken d))))
   \<and> (resolveState (publicToken d) (opts\<lparr> optional := False \<rparr>) scopes = Some proto
        \<and> uninitialised w proto \<longrightarrow>
      injectState d (opts\<lparr> optional := False \<rparr>) scopes w
        = Inl (Error (name d @ '' proto not initialized. Call '' @ name d
                      @ ''Proto.initState() in your component or directive constructor.'')))
   \<and> (resolveState tok (opts\<lparr> optional := True, skipSelf := True \<rparr>) scopes = None \<longrightarrow>
      injectProtoAncestor tok (opts\<lparr> optional := False \<rparr>) scopes w
        = Inl (Error ''Required ancestor state not found. Ensure the parent proto is present in the DOM hierarchy.''))
   \<and> desc (publicToken (fst (createProto dflt nm nxt))) = ''ProtoToken:'' @ nm
   \<and> name (fst (createProto dflt nm nxt)) = nm"
  by (auto simp: injectState_def injectPublic_def injectProtoAncestor_def createProto_def
        publicFactory_def uninitialised_def deleteMutators_def split: option.splits)

theorem required_lookup_errors_witness:
  "injectState parentDir noOptions [emptyScope, emptyScope] emptyWorld
     = Inl (NullInjectorError ''ProtoToken:ParentDir'')
   \<and> injectProtoAncestor (publicToken parentDir) noOptions [emptyScope, emptyScope] emptyWorld
     = Inl (Error ''Required ancestor state not found. Ensure the parent proto is present in the DOM hierarchy.'')"
  using required_lookup_errors[where d = parentDir and opts = noOptions
      and scopes = "[emptyScope, emptyScope]" and w = emptyWorld
      and tok = "publicToken parentDir"]
  by (simp add: resolveState_def visibleScopes_def noOptions_def emptyScope_def parentDir_def createProto_def)

text \<open>
  Claim C9 as stated fails for \<open>injectProtoAncestor\<close>: the required lookups of two
  different kinds, neither provided, fail with the same error, so the message does not
  identify the kind.
\<close>

theorem ancestor_error_names_kind_counterexample:
  "injectProtoAncestor (publicToken parentDir) noOptions [emptyScope] emptyWorld
     = Inl (Error ''Required ancestor state not found. Ensure the parent proto is present in the DOM hierarchy.'')
   \<and> injectProtoAncestor (publicToken childDir) noOptions [emptyScope] emptyWorld
     = Inl (Error ''Required ancestor state not found. Ensure the parent proto is present in the DOM hierarchy.'')
   \<and> name parentDir \<noteq> name childDir"
  by (simp add: injectProtoAncestor_def injectPublic_def resolveState_def visibleScopes_def
        noOptions_def emptyScope_def parentDir_def childDir_def createProto_def)

section \<open>The example node\<close>

lemmas example_defs =
  provideState_def hookContext_def rootHookScope_def leafHookScope_def hooksInEffect_def
  internalFactory_def chainFactory_def injectChain_def
  injectConfig_def deepMerge_def contributionsAt_def createProtoAncestry_def newSelfEntry_def
  resolveState_def visibleScopes_def noOptions_def emptyWorld_def emptyScope_def
  parentDir_def childDir_def createProto_def


lemma nodeContext_resolve:
  "resolveState (publicToken parentDir) noOptions nodeContext = Some 10"
  by (simp add: nodeContext_def example_defs Let_def split: prod.splits)

lemma nodeContext_hooks:
  "injectHooks parentDir noOptions nodeContext = [logHook ''root'', logHook ''leaf'']"
  by (simp add: nodeContext_def injectHooks_def example_defs Let_def split: prod.splits)

lemma nodeContext_shape:
  "\<exists>s. nodeContext = [s, rootHookScope] \<and> hooksProviders s = hooksProviders leafHookScope"
  by (simp add: nodeContext_def provideState_def hookContext_def Let_def split: prod.splits)

lemma nodeWorld_proto:
  "\<exists>obj. protos nodeWorld 10 = Some obj \<and> source obj = None \<and> hasSet obj \<and> hasUpdate obj"
  by (simp add: nodeWorld_def example_defs Let_def split: prod.splits)

lemma nodeWorld_console: "console nodeWorld = []"
  by (simp add: nodeWorld_def example_defs Let_def split: prod.splits)

lemma nodeWorld_next: "nextRef nodeWorld = 14"
  by (simp add: nodeWorld_def example_defs Let_def split: prod.splits)

lemma nodeWorld_callbacks: "destroyCallbacks nodeWorld r = []"
  by (simp add: nodeWorld_def example_defs Let_def split: prod.splits)

lemma nodeWorld_root:
  "\<exists>pa. protos nodeWorld 10 = Some pa \<and> allChildren pa = []
      \<and> sameTypeChildren (ancestry pa) = \<lparr> cref = 11, csrc = 10, ctok = publicToken parentDir \<rparr>"
  by (simp add: nodeWorld_def example_defs Let_def split: prod.splits)

lemma nodeContext_chain: "injectChain (emptyScope # nodeContext) = [rootChainEntry]"
  by (simp add: nodeContext_def rootChainEntry_def example_defs Let_def split: prod.splits)

section \<open>The public handle\<close>

lemma deleteMutators_protos:
  "protos (deleteMutators proto w) r =
     (if r = proto then map_option (\<lambda>p. p\<lparr> hasSet := False, hasUpdate := False \<rparr>) (protos w proto)
      else protos w r)"
  by (simp add: deleteMutators_def split: option.splits)

lemma deleteMutators_idem:
  "protos w proto = Some obj \<Longrightarrow> \<not> hasSet obj \<Longrightarrow> \<not> hasUpdate obj \<Longrightarrow> deleteMutators proto w = w"
proof -
  assume a: "protos w proto = Some obj" "\<not> hasSet obj" "\<not> hasUpdate obj"
  then have "obj\<lparr> hasSet := False, hasUpdate := False \<rparr> = obj" by simp
  with a have "(protos w)(proto \<mapsto> obj\<lparr> hasSet := False, hasUpdate := False \<rparr>) = protos w"
    by (simp add: map_upd_triv)
  with a show ?thesis by (simp add: deleteMutators_def)
qed

lemma returnPublic_resolved:
  "resolveState (publicToken d) noOptions scopes = Some proto \<Longrightarrow>
     returnPublic d scopes w = Inr (proto, deleteMutators proto w)"
  by (simp add: returnPublic_def injectPublic_def publicFactory_def)

text \<open>
  Claim C10. When the kind's tokens resolve to the proto state object at \<open>proto\<close>,
  injecting the public token returns that same address, the one the internal token
  resolves to, and not a copy; the factory of the public token has then removed \<open>set\<close>
  and \<open>update\<close> from that object, which is otherwise unchanged. So the object reached
  through the internal token has lost its mutators too: an \<open>initState\<close> that comes after
  the public token was resolved on a node that is not yet initialised fails at
  \<open>proto.set\<close>.
\<close>

theorem public_handle_is_internal_object:
  "resolveState (publicToken d) noOptions scopes = Some proto \<and> protos w proto = Some obj \<longrightarrow>
     injectPublic (publicToken d) noOptions scopes w = Inr (Some proto, snd (publicFactory proto w))
     \<and> fst (publicFactory proto w) = proto
     \<and> protos (snd (publicFactory proto w)) proto = Some (obj\<lparr> hasSet := False, hasUpdate := False \<rparr>)
     \<and> (source obj = None \<longrightarrow>
          initState devMode d scopes instance (snd (publicFactory proto w))
            = Inl (TypeError ''proto.set is not a function''))"
  by (simp add: injectPublic_def publicFactory_def deleteMutators_protos initState_def Let_def)

theorem public_handle_is_internal_object_witness:
  "injectPublic (publicToken parentDir) noOptions nodeContext nodeWorld
     = Inr (Some 10, snd (publicFactory 10 nodeWorld))
   \<and> map_option hasSet (protos (snd (publicFactory 10 nodeWorld)) 10) = Some False
   \<and> map_option hasUpdate (protos (snd (publicFactory 10 nodeWorld)) 10) = Some False
   \<and> initState True parentDir nodeContext nodeInstance (snd (publicFactory 10 nodeWorld))
       = Inl (TypeError ''proto.set is not a function'')"
proof -
  from nodeWorld_proto obtain obj where
    obj: "protos nodeWorld 10 = Some obj" "source obj = None" by blast
  from public_handle_is_internal_object[of parentDir nodeContext 10 nodeWorld obj True nodeInstance]
    nodeContext_resolve obj
  show ?thesis by simp
qed

section \<open>Initialising twice\<close>

text \<open>
  Claim C1. For a node whose state slot is already non-null: in development mode
  \<open>initState\<close> raises the usage error "called more than once"; in production mode it
  returns the node's own state handle, and the only thing it does to the world is what
  resolving the public token does: the state slot keeps its value, nothing is written to
  the console, no hook runs, and when the handle has already lost \<open>set\<close> and \<open>update\<close>
  (as it has after a first \<open>initState\<close>) the world is unchanged altogether.
\<close>

theorem initState_second_call:
  "resolveState (publicToken d) noOptions scopes = Some proto \<and> protos w proto = Some obj
     \<and> source obj \<noteq> None \<longrightarrow>
     initState True d scopes instance w = Inl (Error (alreadyInitialised (name d)))
     \<and> initState False d scopes instance w = Inr (proto, deleteMutators proto w)
     \<and> map_option source (protos (deleteMutators proto w) proto) = Some (source obj)
     \<and> console (deleteMutators proto w) = console w
     \<and> (\<not> hasSet obj \<and> \<not> hasUpdate obj \<longrightarrow> deleteMutators proto w = w)"
proof (intro impI conjI)
  assume h: "resolveState (publicToken d) noOptions scopes = Some proto \<and> protos w proto = Some obj
     \<and> source obj \<noteq> None"
  then show "initState True d scopes instance w = Inl (Error (alreadyInitialised (name d)))"
    by (auto simp: initState_def)
  from h show "initState False d scopes instance w = Inr (proto, deleteMutators proto w)"
    by (auto simp: initState_def returnPublic_resolved)
  from h show "map_option source (protos (deleteMutators proto w) proto) = Some (source obj)"
    by (simp add: deleteMutators_protos)
  show "console (deleteMutators proto w) = console w"
    by (simp add: deleteMutators_def split: option.splits)
  assume "\<not> hasSet obj \<and> \<not> hasUpdate obj"
  with h show "deleteMutators proto w = w"
    by (simp add: deleteMutators_idem)
qed

lemma initialisedWorld_eq:
  "initState False parentDir nodeContext nodeInstance nodeWorld = Inr (10, initialisedWorld)"
proof -
  from nodeWorld_proto obtain obj where
    obj: "protos nodeWorld 10 = Some obj" "source obj = None" "hasSet obj" by blast
  then have "\<exists>w. initState False parentDir nodeContext nodeInstance nodeWorld = Inr (10, w)"
    using nodeContext_resolve by (simp add: initState_def Let_def returnPublic_resolved)
  then show ?thesis by (auto simp: initialisedWorld_def)
qed

lemma initialisedWorld_proto:
  "\<exists>obj. protos initialisedWorld 10 = Some obj \<and> source obj \<noteq> None \<and> \<not> hasSet obj \<and> \<not> hasUpdate obj"
proof -
  from nodeWorld_proto obtain obj where
    obj: "protos nodeWorld 10 = Some obj" "source obj = None" "hasSet obj" by blast
  have "initState False parentDir nodeContext nodeInstance nodeWorld =
      Inr (10, deleteMutators 10 (runHooks [logHook ''root'', logHook ''leaf''] 10
         (setSource 10 (fst (wrapInputs nodeInstance))
            (warnNoInputs False parentDir (snd (wrapInputs nodeInstance)) nodeWorld))))"
    using obj nodeContext_resolve nodeContext_hooks
    by (simp add: initState_def Let_def returnPublic_resolved)
  with initialisedWorld_eq have eq: "initialisedWorld = deleteMutators 10 (runHooks [logHook ''root'', logHook ''leaf''] 10
         (setSource 10 (fst (wrapInputs nodeInstance))
            (warnNoInputs False parentDir (snd (wrapInputs nodeInstance)) nodeWorld)))" by simp
  show ?thesis unfolding eq using obj
    by (simp add: deleteMutators_protos runHooks_def logHook_def setSource_def warnNoInputs_def)
qed

text \<open>The node of the example, initialised once, then initialised again.\<close>

theorem initState_second_call_witness:
  "initState True parentDir nodeContext nodeInstance initialisedWorld
     = Inl (Error ''[angular-proto] ParentDirProto(instance) was called more than once. ParentDirProto(instance) should only be called once in the constructor.'')
   \<and> initState False parentDir nodeContext nodeInstance initialisedWorld = Inr (10, initialisedWorld)"
proof -
  from initialisedWorld_proto obtain obj where
    obj: "protos initialisedWorld 10 = Some obj" "source obj \<noteq> None" "\<not> hasSet obj" "\<not> hasUpdate obj"
    by blast
  from initState_second_call[of parentDir nodeContext 10 initialisedWorld obj nodeInstance]
    nodeContext_resolve obj
  show ?thesis by (simp add: alreadyInitialised_def parentDir_def createProto_def)
qed

section \<open>Hooks\<close>

lemma hooksValue_concat:
  "(case hooksValue (tid (hooksToken d)) scopes of None \<Rightarrow> [] | Some hooks \<Rightarrow> hooks)
     = concat (map (hooksOfProvider d) (rev scopes))"
  by (induction scopes) (auto simp: hooksOfProvider_def split: option.splits)

lemma injectHooks_concat:
  "injectHooks d noOptions scopes = concat (map (hooksOfProvider d) (rev scopes))"
  by (simp add: injectHooks_def visibleScopes_def noOptions_def hooksValue_concat)

lemma single_registration:
  "length (hooksProviders s (tid (hooksToken d))) \<le> 1 \<Longrightarrow> hooksOfProvider d s = providedHooks d s"
  by (cases "hooksProviders s (tid (hooksToken d))")
     (auto simp: hooksOfProvider_def providedHooks_def hooksInEffect_def)

text \<open>
  Claim C3, as amended. For every scope \<open>s\<close> with enclosing scopes \<open>rest\<close>: the hook list
  injected at \<open>s\<close> is the hook list injected at the enclosing scope followed by the hooks
  of the \<open>provideHooks\<close> in effect at \<open>s\<close>, which is the last one registered there (no
  hooks if none is registered); hence the list injected anywhere is these hooks of all
  scopes from the root down to that scope, in that order, and it is all the hooks
  provided from the root down when every position registers at most one \<open>provideHooks\<close>
  of the kind. The one pass of \<open>initState\<close> that initialises a node (slot still
  \<open>null\<close>, \<open>set\<close> still there) publishes the state, then calls, each with the node's
  handle, the hooks inherited from the enclosing scopes and after them the hooks of the
  provider in effect at the node's own scope, and only then returns the public handle.
\<close>

theorem hooks_of_providers_root_to_leaf:
  "injectHooks d noOptions (s # rest) = injectHooks d noOptions rest @ hooksOfProvider d s
   \<and> injectHooks d noOptions scopes = concat (map (hooksOfProvider d) (rev scopes))
   \<and> ((\<forall>p \<in> set scopes. length (hooksProviders p (tid (hooksToken d))) \<le> 1) \<longrightarrow>
        injectHooks d noOptions scopes = concat (map (providedHooks d) (rev scopes)))
   \<and> (resolveState (publicToken d) noOptions (s # rest) = Some proto \<and> protos w proto = Some obj
        \<and> source obj = None \<and> hasSet obj \<longrightarrow>
      initState devMode d (s # rest) instance w =
        returnPublic d (s # rest)
          (fold (\<lambda>hook. hook proto) (hooksOfProvider d s)
             (fold (\<lambda>hook. hook proto) (injectHooks d noOptions rest)
                (setSource proto (fst (wrapInputs instance))
                   (warnNoInputs devMode d (snd (wrapInputs instance)) w)))))"
proof (intro conjI impI)
  show app: "injectHooks d noOptions (s # rest) = injectHooks d noOptions rest @ hooksOfProvider d s"
    by (simp add: injectHooks_concat)
  show "injectHooks d noOptions scopes = concat (map (hooksOfProvider d) (rev scopes))"
    by (rule injectHooks_concat)
next
  assume "\<forall>p \<in> set scopes. length (hooksProviders p (tid (hooksToken d))) \<le> 1"
  then have eq: "\<And>p. p \<in> set (rev scopes) \<Longrightarrow> hooksOfProvider d p = providedHooks d p"
    by (simp add: single_registration)
  have "map (hooksOfProvider d) (rev scopes) = map (providedHooks d) (rev scopes)"
    by (rule map_cong[OF refl]) (rule eq)
  then show "injectHooks d noOptions scopes = concat (map (providedHooks d) (rev scopes))"
    unfolding injectHooks_concat by (rule arg_cong)
next
  assume h: "resolveState (publicToken d) noOptions (s # rest) = Some proto \<and> protos w proto = Some obj
        \<and> source obj = None \<and> hasSet obj"
  then have "initState devMode d (s # rest) instance w =
      returnPublic d (s # rest)
        (fold (\<lambda>hook. hook proto) (injectHooks d noOptions (s # rest))
           (setSource proto (fst (wrapInputs instance))
              (warnNoInputs devMode d (snd (wrapInputs instance)) w)))"
    by (simp add: initState_def Let_def runHooks_def)
  then show "initState devMode d (s # rest) instance w =
        returnPublic d (s # rest)
          (fold (\<lambda>hook. hook proto) (hooksOfProvider d s)
             (fold (\<lambda>hook. hook proto) (injectHooks d noOptions rest)
                (setSource proto (fst (wrapInputs instance))
                   (warnNoInputs devMode d (snd (wrapInputs instance)) w))))"
    by (simp add: injectHooks_concat)
qed

text \<open>
  The example node has a hook at its own position and one at the position above; each
  writes its name to the console. After \<open>initState\<close> the console reads root, leaf.
\<close>

theorem hooks_of_providers_root_to_leaf_witness:
  "map_sum id (\<lambda>r. (fst r, console (snd r)))
     (initState False parentDir nodeContext nodeInstance nodeWorld)
     = Inr (10, [''root'', ''leaf''])
   \<and> injectHooks parentDir noOptions hookContext
       = concat (map (providedHooks parentDir) (rev hookContext))"
proof -
  from nodeContext_shape obtain s where
    s: "nodeContext = [s, rootHookScope]" "hooksProviders s = hooksProviders leafHookScope" by blast
  from nodeWorld_proto obtain obj where
    obj: "protos nodeWorld 10 = Some obj" "source obj = None" "hasSet obj" by blast
  have hyp: "resolveState (publicToken parentDir) noOptions (s # [rootHookScope]) = Some 10
      \<and> protos nodeWorld 10 = Some obj \<and> source obj = None \<and> hasSet obj"
    using nodeContext_resolve s obj by simp
  have single: "\<forall>p \<in> set hookContext. length (hooksProviders p (tid (hooksToken parentDir))) \<le> 1"
    by (simp add: hookContext_def rootHookScope_def leafHookScope_def)
  have own: "hooksOfProvider parentDir s = [logHook ''leaf'']"
    using s by (simp add: hooksOfProvider_def hooksInEffect_def leafHookScope_def)
  have anc: "injectHooks parentDir noOptions [rootHookScope] = [logHook ''root'']"
    by (simp add: injectHooks_def visibleScopes_def noOptions_def hooksInEffect_def rootHookScope_def)
  note inst = hooks_of_providers_root_to_leaf
      [of parentDir s "[rootHookScope]" hookContext 10 nodeWorld obj False nodeInstance]
  from inst hyp
  have run: "initState False parentDir nodeContext nodeInstance nodeWorld =
      returnPublic parentDir nodeContext
        (fold (\<lambda>hook. hook 10) [logHook ''leaf''] (fold (\<lambda>hook. hook 10) [logHook ''root'']
          (setSource 10 (fst (wrapInputs nodeInstance))
             (warnNoInputs False parentDir (snd (wrapInputs nodeInstance)) nodeWorld))))"
    by (simp add: s own anc)
  from inst single
  have all: "injectHooks parentDir noOptions hookContext
       = concat (map (providedHooks parentDir) (rev hookContext))"
    by blast
  from run have "map_sum id (\<lambda>r. (fst r, console (snd r)))
     (initState False parentDir nodeContext nodeInstance nodeWorld) = Inr (10, [''root'', ''leaf''])"
    using nodeContext_resolve obj nodeWorld_console
    by (simp add: returnPublic_resolved logHook_def setSource_def warnNoInputs_def
          deleteMutators_def)
  with all show ?thesis by simp
qed

lemma stackedContext_resolve:
  "resolveState (publicToken parentDir) noOptions stackedContext = Some 10"
  by (simp add: stackedContext_def stackedHooks_def example_defs Let_def split: prod.splits)

lemma stackedContext_hooks:
  "injectHooks parentDir noOptions stackedContext = [logHook ''host'']"
  "providedHooks parentDir (hd stackedContext) = [logHook ''directive'', logHook ''host'']"
  "injectHooks parentDir noOptions (tl stackedContext) = []"
  by (simp_all add: stackedContext_def stackedHooks_def injectHooks_def providedHooks_def
        example_defs Let_def split: prod.splits)

lemma stackedWorld_proto:
  "\<exists>obj. protos stackedWorld 10 = Some obj \<and> source obj = None \<and> hasSet obj"
  by (simp add: stackedWorld_def stackedHooks_def example_defs Let_def split: prod.splits)

lemma stackedWorld_console: "console stackedWorld = []"
  by (simp add: stackedWorld_def stackedHooks_def example_defs Let_def split: prod.splits)

lemma stacked_run:
  "map_sum id (\<lambda>r. console (snd r))
     (initState False parentDir stackedContext nodeInstance stackedWorld) = Inr [''host'']"
proof -
  from stackedWorld_proto obtain obj where
    obj: "protos stackedWorld 10 = Some obj" "source obj = None" "hasSet obj" by blast
  then show ?thesis
    using stackedContext_resolve stackedWorld_console
    by (simp add: initState_def Let_def stackedContext_hooks returnPublic_resolved runHooks_def
          logHook_def setSource_def warnNoInputs_def deleteMutators_def)
qed

text \<open>
  Claim C3 as stated fails where one position registers two \<open>provideHooks\<close> of a kind:
  in \<open>stackedContext\<close> the injected list is not the enclosing list followed by the hooks
  provided at the position, and \<open>initState\<close> runs the host's hook only, the
  directive's hook never.
\<close>

theorem hooks_all_provided_counterexample:
  "injectHooks parentDir noOptions stackedContext
     \<noteq> injectHooks parentDir noOptions (tl stackedContext) @ providedHooks parentDir (hd stackedContext)
   \<and> map_sum id (\<lambda>r. console (snd r))
        (initState False parentDir stackedContext nodeInstance stackedWorld) = Inr [''host'']"
  by (simp add: stackedContext_hooks stacked_run)

section \<open>Configuration\<close>

lemma lookup_contributions:
  "(case lookupProvider (contributionsAt k) scopes of None \<Rightarrow> [] | Some cs \<Rightarrow> cs)
     = (case find (\<lambda>s. configContributions s k \<noteq> []) scopes of
          None \<Rightarrow> []
        | Some s \<Rightarrow> configContributions s k)"
  by (induction scopes) (auto simp: contributionsAt_def)

lemma map_of_merged_fields:
  "map_of (map (\<lambda>kv. (fst kv, f kv)) fs) k = map_option (\<lambda>v. f (k, v)) (map_of fs k)"
  by (induction fs) auto

lemma map_of_filter_new:
  "map_of fs k = None \<Longrightarrow> map_of (filter (\<lambda>kv. map_of fs (fst kv) = None) gs) k = map_of gs k"
  by (induction gs) auto

lemma field_mergeTwo:
  "field (mergeTwo (Obj fs) (Obj gs)) k =
     (case map_of fs k of
        None \<Rightarrow> map_of gs k
      | Some l \<Rightarrow> (case map_of gs k of None \<Rightarrow> Some l | Some r \<Rightarrow> Some (mergeTwo l r)))"
  by (auto simp: field_def map_add_def map_of_merged_fields map_of_filter_new split: option.splits)

lemma example_merge:
  "deepMerge testConfig [grandparentContribution, parentContribution, selfContribution]
     = Obj [(''a'', Obj [(''a'', Num 1), (''b'', Num 3), (''c'', Num 0)]),
            (''b'', Obj [(''a'', Num 2), (''b'', Num 3), (''c'', Num 3)]),
            (''c'', Num 3),
            (''d'', Num 0)]"
  by (simp add: deepMerge_def testConfig_def grandparentContribution_def parentContribution_def
        selfContribution_def)

text \<open>
  What the two sides of claim C2 are in \<open>tieredContext\<close>: the code merges the
  contribution registered at the node only, so \<open>a.a\<close> keeps its default 0; merging
  every contribution from the root down would give \<open>a.a = 1\<close>.
\<close>

lemma tiered_values:
  "injectConfig protoTest noOptions tieredContext =
     Obj [(''a'', Obj [(''a'', Num 0), (''b'', Num 3), (''c'', Num 0)]),
          (''b'', Obj [(''a'', Num 0), (''b'', Num 3), (''c'', Num 3)]),
          (''c'', Num 3),
          (''d'', Num 0)]"
  "deepMerge testConfig (allContributions protoTest tieredContext) =
     Obj [(''a'', Obj [(''a'', Num 1), (''b'', Num 3), (''c'', Num 0)]),
          (''b'', Obj [(''a'', Num 0), (''b'', Num 3), (''c'', Num 3)]),
          (''c'', Num 3),
          (''d'', Num 0)]"
  by (simp_all add: injectConfig_def Let_def visibleScopes_def noOptions_def contributionsAt_def
        tieredContext_def allContributions_def protoTest_def createProto_def emptyScope_def
        deepMerge_def testConfig_def grandparentContribution_def selfContribution_def)

text \<open>
  Claim C2, as amended. The merged configuration of a kind at a position is the deep
  merge of the kind's default with the contributions registered at the nearest position,
  from the node upwards, that registers any (none: the default alone), in their
  registration order, host directives before their host; contributions registered at
  positions farther up are shadowed. Within the merged list a later contribution wins
  per leaf key and contributions on disjoint keys all take effect: merging one more
  contribution is a \<open>mergeTwo\<close> on the result so far, and a field of the merge of two
  objects is the right one's where only the right has it, the left one's where only the
  left has it, and the merge of the two where both have it. In particular, with the
  default and the three contributions of the repository's test registered at one
  position, grandparent first and the component's own last, the result is
  \<open>{a:{a:1,b:3,c:0}, b:{a:2,b:3,c:3}, c:3, d:0}\<close>.
\<close>

theorem config_merges_nearest_contributions:
  "injectConfig d noOptions scopes =
     deepMerge (case defaultConfig d of None \<Rightarrow> Obj [] | Some c \<Rightarrow> c)
       (case find (\<lambda>s. configContributions s (tid (configContributionToken d)) \<noteq> []) scopes of
          None \<Rightarrow> []
        | Some s \<Rightarrow> configContributions s (tid (configContributionToken d)))
   \<and> deepMerge c (cs @ [nearest]) = mergeTwo (deepMerge c cs) nearest
   \<and> field (mergeTwo (Obj fs) (Obj gs)) k =
       (case map_of fs k of
          None \<Rightarrow> map_of gs k
        | Some l \<Rightarrow> (case map_of gs k of None \<Rightarrow> Some l | Some r \<Rightarrow> Some (mergeTwo l r)))
   \<and> injectConfig protoTest noOptions (hostDirectiveScope # rest) =
       Obj [(''a'', Obj [(''a'', Num 1), (''b'', Num 3), (''c'', Num 0)]),
            (''b'', Obj [(''a'', Num 2), (''b'', Num 3), (''c'', Num 3)]),
            (''c'', Num 3),
            (''d'', Num 0)]"
proof (intro conjI)
  show "injectConfig d noOptions scopes =
     deepMerge (case defaultConfig d of None \<Rightarrow> Obj [] | Some c \<Rightarrow> c)
       (case find (\<lambda>s. configContributions s (tid (configContributionToken d)) \<noteq> []) scopes of
          None \<Rightarrow> []
        | Some s \<Rightarrow> configContributions s (tid (configContributionToken d)))"
    by (simp add: injectConfig_def Let_def visibleScopes_def noOptions_def lookup_contributions)
  show "deepMerge c (cs @ [nearest]) = mergeTwo (deepMerge c cs) nearest"
    by (simp add: deepMerge_def)
  show "field (mergeTwo (Obj fs) (Obj gs)) k =
       (case map_of fs k of
          None \<Rightarrow> map_of gs k
        | Some l \<Rightarrow> (case map_of gs k of None \<Rightarrow> Some l | Some r \<Rightarrow> Some (mergeTwo l r)))"
    by (rule field_mergeTwo)
  have "injectConfig protoTest noOptions (hostDirectiveScope # rest) =
      deepMerge testConfig [grandparentContribution, parentContribution, selfContribution]"
    by (simp add: injectConfig_def Let_def visibleScopes_def noOptions_def contributionsAt_def
          hostDirectiveScope_def protoTest_def createProto_def emptyScope_def)
  then show "injectConfig protoTest noOptions (hostDirectiveScope # rest) =
       Obj [(''a'', Obj [(''a'', Num 1), (''b'', Num 3), (''c'', Num 0)]),
            (''b'', Obj [(''a'', Num 2), (''b'', Num 3), (''c'', Num 3)]),
            (''c'', Num 3),
            (''d'', Num 0)]"
    by (simp only: example_merge)
qed

text \<open>
  Claim C2 as stated fails where contributions sit at different tree positions: in
  \<open>tieredContext\<close> the configuration is not the merge of every contribution from the
  root to the node.
\<close>

theorem config_all_contributions_counterexample:
  "injectConfig protoTest noOptions tieredContext
     \<noteq> deepMerge testConfig (allContributions protoTest tieredContext)"
  by (simp add: injectConfig_def Let_def visibleScopes_def noOptions_def contributionsAt_def
        tieredContext_def allContributions_def protoTest_def createProto_def emptyScope_def
        deepMerge_def testConfig_def grandparentContribution_def selfContribution_def)

section \<open>Descendant sets: registration and removal\<close>

lemma updateChildren_protos:
  "protos (updateChildren a f w) r =
     (if r = a then map_option (\<lambda>p. p\<lparr> allChildren := f (allChildren p) \<rparr>) (protos w a)
      else protos w r)"
  by (simp add: updateChildren_def split: option.splits)

lemma updateChildren_callbacks [simp]:
  "destroyCallbacks (updateChildren a f w) = destroyCallbacks w"
  by (simp add: updateChildren_def split: option.splits)

lemma updateChildren_alive [simp]:
  "protos (updateChildren a f w) r = None \<longleftrightarrow> protos w r = None"
  by (simp add: updateChildren_protos)

lemma updateChildren_read:
  "readAllChildren (updateChildren a f w) r =
     (if r = a \<and> protos w a \<noteq> None then f (readAllChildren w a) else readAllChildren w r)"
  by (auto simp: readAllChildren_def updateChildren_protos split: option.splits)

lemma read_callbacks_update:
  "readAllChildren (w\<lparr> destroyCallbacks := c \<rparr>) r = readAllChildren w r"
  by (simp add: readAllChildren_def)

lemma updateChildren_ancestry:
  "map_option ancestry (protos (updateChildren a f w) r) = map_option ancestry (protos w r)"
  by (cases "protos w a") (auto simp: updateChildren_protos)

text \<open>Running removal callbacks filters every children signal by address.\<close>

lemma run_callbacks_read:
  "readAllChildren
     (fold (\<lambda>cb. updateChildren (fst cb) (filter (\<lambda>p. eref p \<noteq> eref (snd cb)))) cbs w) r
   = filter (\<lambda>p. \<forall>cb \<in> set cbs. fst cb = r \<longrightarrow> eref p \<noteq> eref (snd cb)) (readAllChildren w r)"
proof (induction cbs arbitrary: w)
  case Nil
  then show ?case by simp
next
  case (Cons cb cbs)
  have step: "readAllChildren (updateChildren (fst cb) (filter (\<lambda>p. eref p \<noteq> eref (snd cb))) w) r
      = (if r = fst cb then filter (\<lambda>p. eref p \<noteq> eref (snd cb)) (readAllChildren w r)
         else readAllChildren w r)"
    by (simp only: updateChildren_read) (auto simp: readAllChildren_def)
  show ?case
    by (simp add: Cons.IH step)
qed

lemma register_callbacks:
  "destroyCallbacks (registerWithAncestors chain self e w) =
     (destroyCallbacks w)(self := destroyCallbacks w self @ map (\<lambda>a. (estate a, e)) chain)"
  by (induction chain arbitrary: w) (auto simp: fun_eq_iff)

lemma register_alive:
  "protos (registerWithAncestors chain self e w) r = None \<longleftrightarrow> protos w r = None"
  by (induction chain arbitrary: w) auto

lemma register_ancestry:
  "map_option ancestry (protos (registerWithAncestors chain self e w) r) = map_option ancestry (protos w r)"
  by (induction chain arbitrary: w) (auto simp: updateChildren_ancestry)

lemma register_read:
  "distinct (map estate chain) \<Longrightarrow>
   readAllChildren (registerWithAncestors chain self e w) r =
     readAllChildren w r @ (if r \<in> estate ` set chain \<and> protos w r \<noteq> None then [e] else [])"
proof (induction chain arbitrary: w)
  case Nil
  then show ?case by simp
next
  case (Cons a chain)
  let ?w = "(updateChildren (estate a) (\<lambda>c. c @ [e]) w)
             \<lparr> destroyCallbacks := (destroyCallbacks w)(self := destroyCallbacks w self @ [(estate a, e)]) \<rparr>"
  have rd: "readAllChildren ?w r =
      (if r = estate a \<and> protos w (estate a) \<noteq> None then readAllChildren w r @ [e] else readAllChildren w r)"
    by (simp add: read_callbacks_update updateChildren_read)
  have al: "protos ?w r = None \<longleftrightarrow> protos w r = None" by simp
  from Cons.prems have d: "distinct (map estate chain)" and n: "estate a \<notin> estate ` set chain"
    by auto
  show ?case
    using Cons.IH[OF d, of ?w] n by (auto simp: rd al)
qed

lemma internalFactory_result:
  "internalFactory d scopes w0 = (self, w1) \<Longrightarrow>
     self = nextRef w0 \<and>
     w1 = registerWithAncestors (injectChain scopes) (nextRef w0) (newSelfEntry d w0)
            (w0\<lparr> nextRef := nextRef w0 + 3,
                 protos := (protos w0)(nextRef w0 \<mapsto>
                   \<lparr> source = None, hasSet = True, hasUpdate = True, protoId = nextRef w0,
                     protoName = name d, config = injectConfig d noOptions scopes,
                     ancestry = fst (createProtoAncestry (injectChain scopes) (publicToken d)
                                       (nextRef w0) (Suc (nextRef w0))),
                     allChildren = [] \<rparr>) \<rparr>)"
  by (auto simp: internalFactory_def Let_def)

lemma internalFactory_callbacks:
  "internalFactory d scopes w0 = (self, w1) \<Longrightarrow>
     destroyCallbacks w1 self =
       destroyCallbacks w0 (nextRef w0) @ map (\<lambda>a. (estate a, newSelfEntry d w0)) (injectChain scopes)"
  by (drule internalFactory_result) (simp add: register_callbacks)

lemma internalFactory_read:
  "internalFactory d scopes w0 = (self, w1) \<Longrightarrow> distinct (map estate (injectChain scopes)) \<Longrightarrow>
   protos w0 r \<noteq> None \<Longrightarrow> r \<noteq> nextRef w0 \<Longrightarrow>
     readAllChildren w1 r =
       readAllChildren w0 r @ (if r \<in> estate ` set (injectChain scopes) then [newSelfEntry d w0] else [])"
proof -
  assume f: "internalFactory d scopes w0 = (self, w1)"
    and dist: "distinct (map estate (injectChain scopes))"
    and alive: "protos w0 r \<noteq> None" and fresh: "r \<noteq> nextRef w0"
  let ?w = "w0\<lparr> nextRef := nextRef w0 + 3,
                 protos := (protos w0)(nextRef w0 \<mapsto>
                   \<lparr> source = None, hasSet = True, hasUpdate = True, protoId = nextRef w0,
                     protoName = name d, config = injectConfig d noOptions scopes,
                     ancestry = fst (createProtoAncestry (injectChain scopes) (publicToken d)
                                       (nextRef w0) (Suc (nextRef w0))),
                     allChildren = [] \<rparr>) \<rparr>"
  from internalFactory_result[OF f]
  have w1: "w1 = registerWithAncestors (injectChain scopes) (nextRef w0) (newSelfEntry d w0) ?w"
    by simp
  have base: "readAllChildren ?w r = readAllChildren w0 r" "protos ?w r \<noteq> None"
    using alive fresh by (simp_all add: readAllChildren_def)
  show ?thesis
    unfolding w1 register_read[OF dist] using base by simp
qed

lemma destroy_read:
  "readAllChildren (destroy self w) r =
     filter (\<lambda>p. \<forall>cb \<in> set (destroyCallbacks w self). fst cb = r \<longrightarrow> eref p \<noteq> eref (snd cb))
       (readAllChildren w r)"
  by (simp add: destroy_def run_callbacks_read)


lemma updateChildren_next [simp]: "nextRef (updateChildren a f w) = nextRef w"
  by (simp add: updateChildren_def split: option.splits)

lemma register_next: "nextRef (registerWithAncestors chain self e w) = nextRef w"
  by (induction chain arbitrary: w) auto

lemma internalFactory_next:
  "internalFactory d scopes w0 = (self, w1) \<Longrightarrow> nextRef w1 = nextRef w0 + 3"
  by (drule internalFactory_result) (simp add: register_next)

lemma internalFactory_ancestry:
  "internalFactory d scopes w0 = (self, w1) \<Longrightarrow>
     map_option ancestry (protos w1 r) =
       (if r = nextRef w0
        then Some (fst (createProtoAncestry (injectChain scopes) (publicToken d)
                          (nextRef w0) (Suc (nextRef w0))))
        else map_option ancestry (protos w0 r))"
  by (drule internalFactory_result) (simp add: register_ancestry)

lemma internalFactory_alive:
  "internalFactory d scopes w0 = (self, w1) \<Longrightarrow> r \<noteq> nextRef w0 \<Longrightarrow>
     protos w1 r = None \<longleftrightarrow> protos w0 r = None"
  by (drule internalFactory_result) (simp add: register_alive)

lemma internalFactory_callbacks_other:
  "internalFactory d scopes w0 = (self, w1) \<Longrightarrow> r \<noteq> nextRef w0 \<Longrightarrow>
     destroyCallbacks w1 r = destroyCallbacks w0 r"
  by (drule internalFactory_result) (simp add: register_callbacks)

lemma injectChain_cons:
  "injectChain (s # t # rest) =
     (case ancestryChain t of Some chain \<Rightarrow> chain | None \<Rightarrow> injectChain (t # rest))"
  by (simp add: injectChain_def split: option.splits)



subsection \<open>The example tree\<close>

lemma mid_factory:
  "internalFactory childDir (emptyScope # nodeContext) nodeWorld = (14, midFactoryWorld)"
  by (simp add: midFactoryWorld_def internalFactory_def Let_def nodeWorld_next)

lemma mid_self: "newSelfEntry childDir nodeWorld = midSelfEntry"
  by (simp add: newSelfEntry_def midSelfEntry_def nodeWorld_next)

lemma midFactoryWorld_callbacks: "destroyCallbacks midFactoryWorld 14 = [(10, midSelfEntry)]"
  using internalFactory_callbacks[OF mid_factory]
  by (simp add: nodeWorld_next nodeWorld_callbacks nodeContext_chain mid_self rootChainEntry_def)

lemma midWorld_eq: "midWorld = midFactoryWorld\<lparr> nextRef := Suc (nextRef midFactoryWorld) \<rparr>"
  using mid_factory by (simp add: midWorld_def provideState_def chainFactory_def)

lemma midFactoryWorld_next: "nextRef midFactoryWorld = 17"
  using internalFactory_next[OF mid_factory] by (simp add: nodeWorld_next)

lemma midWorld_next: "nextRef midWorld = 18"
  by (simp add: midWorld_eq midFactoryWorld_next)

lemma midWorld_callbacks: "destroyCallbacks midWorld = destroyCallbacks midFactoryWorld"
  by (simp add: midWorld_eq)

lemma midWorld_read: "readAllChildren midWorld r = readAllChildren midFactoryWorld r"
  by (simp add: midWorld_eq readAllChildren_def)

lemma midFactoryWorld_root_children: "readAllChildren midFactoryWorld 10 = [midSelfEntry]"
proof -
  from nodeWorld_root obtain pa where pa: "protos nodeWorld 10 = Some pa" "allChildren pa = []"
    by blast
  then show ?thesis
    using internalFactory_read[OF mid_factory, of 10]
    by (simp add: nodeContext_chain rootChainEntry_def nodeWorld_next mid_self readAllChildren_def)
qed

lemma midContext_chain: "injectChain (emptyScope # midContext) = [rootChainEntry, midChainEntry]"
  using mid_factory
  by (simp add: midContext_def provideState_def chainFactory_def injectChain_cons
        nodeContext_chain midChainEntry_def midFactoryWorld_next)

lemma leaf_factory:
  "internalFactory parentDir (emptyScope # midContext) midWorld = (18, leafWorld)"
  by (simp add: leafWorld_def internalFactory_def Let_def midWorld_next)

lemma leaf_self: "newSelfEntry parentDir midWorld = leafSelfEntry"
  by (simp add: newSelfEntry_def leafSelfEntry_def midWorld_next)

lemma midWorld_root:
  "\<exists>pa. protos midWorld 10 = Some pa
      \<and> sameTypeChildren (ancestry pa) = \<lparr> cref = 11, csrc = 10, ctok = publicToken parentDir \<rparr>"
proof -
  from nodeWorld_root obtain pa where pa: "protos nodeWorld 10 = Some pa"
    "sameTypeChildren (ancestry pa) = \<lparr> cref = 11, csrc = 10, ctok = publicToken parentDir \<rparr>"
    by blast
  from internalFactory_ancestry[OF mid_factory, of 10] pa
  have "map_option ancestry (protos midFactoryWorld 10) = Some (ancestry pa)"
    by (simp add: nodeWorld_next)
  then obtain pb where "protos midFactoryWorld 10 = Some pb" "ancestry pb = ancestry pa"
    by auto
  with pa show ?thesis by (simp add: midWorld_eq)
qed


lemma leafWorld_mid_callbacks: "destroyCallbacks leafWorld 14 = [(10, midSelfEntry)]"
  using internalFactory_callbacks_other[OF leaf_factory, of 14]
  by (simp add: midWorld_callbacks midFactoryWorld_callbacks midWorld_next)

lemma leafWorld_root_children: "readAllChildren leafWorld 10 = [midSelfEntry, leafSelfEntry]"
proof -
  from midWorld_root obtain pa where pa: "protos midWorld 10 = Some pa" by blast
  then show ?thesis
    using internalFactory_read[OF leaf_factory, of 10]
    by (simp add: midContext_chain rootChainEntry_def midChainEntry_def midWorld_next leaf_self
          midWorld_read midFactoryWorld_root_children)
qed

lemma leafWorld_root_alive: "protos leafWorld 10 \<noteq> None"
  using internalFactory_alive[OF leaf_factory, of 10] midWorld_root
  by (auto simp: midWorld_next)

lemma twinWorld_root_children:
  "readAllChildren twinWorld 10 = [midSelfEntry, leafSelfEntry, midChainEntry]"
  using leafWorld_root_alive
  by (simp add: twinWorld_def updateChildren_read leafWorld_root_children)

lemma twinWorld_callbacks: "destroyCallbacks twinWorld 14 = [(10, midSelfEntry)]"
  by (simp add: twinWorld_def leafWorld_mid_callbacks)

subsection \<open>Removal at destruction\<close>

text \<open>
  Claim C4. Let a node be created by the internal factory (its address is \<open>self\<close>, its
  entry \<open>newSelfEntry d w0\<close>, its ancestors the entries of the chain it injects), and
  let \<open>w\<close> be any later world in which the node still holds the callbacks it registered
  then. Destroying the node filters the descendant set of every ancestor of the chain
  by address: what goes is every occurrence of the node's own entry object and nothing
  else, and the descendant set of any other node is left as it is. An entry that is
  structurally equal to the node's entry (same token, same state) but is another object
  stays in the set.
\<close>

theorem destroy_removes_own_entry_by_identity:
  "internalFactory d scopes w0 = (self, w1) \<and> destroyCallbacks w0 (nextRef w0) = []
     \<and> destroyCallbacks w self = destroyCallbacks w1 self \<longrightarrow>
   readAllChildren (destroy self w) r =
     (if r \<in> estate ` set (injectChain scopes)
      then filter (\<lambda>p. \<not> sameEntry p (newSelfEntry d w0)) (readAllChildren w r)
      else readAllChildren w r)
   \<and> (structurallyEqual p (newSelfEntry d w0) \<and> \<not> sameEntry p (newSelfEntry d w0)
        \<and> p \<in> set (readAllChildren w r) \<longrightarrow> p \<in> set (readAllChildren (destroy self w) r))
   \<and> (r \<in> estate ` set (injectChain scopes) \<longrightarrow>
        (\<forall>q \<in> set (readAllChildren (destroy self w) r). \<not> sameEntry q (newSelfEntry d w0)))"
proof (intro impI)
  assume h: "internalFactory d scopes w0 = (self, w1) \<and> destroyCallbacks w0 (nextRef w0) = []
     \<and> destroyCallbacks w self = destroyCallbacks w1 self"
  then have cbs: "destroyCallbacks w self = map (\<lambda>a. (estate a, newSelfEntry d w0)) (injectChain scopes)"
    using internalFactory_callbacks[of d scopes w0 self w1] by simp
  have eq: "readAllChildren (destroy self w) r =
     (if r \<in> estate ` set (injectChain scopes)
      then filter (\<lambda>p. \<not> sameEntry p (newSelfEntry d w0)) (readAllChildren w r)
      else readAllChildren w r)"
    unfolding destroy_read cbs sameEntry_def
    by (auto intro!: filter_cong filter_True[THEN trans, OF _ refl] simp: image_iff)
  show "readAllChildren (destroy self w) r =
     (if r \<in> estate ` set (injectChain scopes)
      then filter (\<lambda>p. \<not> sameEntry p (newSelfEntry d w0)) (readAllChildren w r)
      else readAllChildren w r)
   \<and> (structurallyEqual p (newSelfEntry d w0) \<and> \<not> sameEntry p (newSelfEntry d w0)
        \<and> p \<in> set (readAllChildren w r) \<longrightarrow> p \<in> set (readAllChildren (destroy self w) r))
   \<and> (r \<in> estate ` set (injectChain scopes) \<longrightarrow>
        (\<forall>q \<in> set (readAllChildren (destroy self w) r). \<not> sameEntry q (newSelfEntry d w0)))"
    unfolding eq by auto
qed

text \<open>
  In the example tree the \<open>ChildDir\<close> node is destroyed in \<open>twinWorld\<close>, where the
  root's descendant set holds the node's entry, the entry of the inner \<open>ParentDir\<close>
  node, and a second object with the field values of the node's entry: only the node's
  own entry goes.
\<close>

theorem destroy_removes_own_entry_by_identity_witness:
  "structurallyEqual midChainEntry midSelfEntry
   \<and> readAllChildren twinWorld 10 = [midSelfEntry, leafSelfEntry, midChainEntry]
   \<and> readAllChildren (destroy 14 twinWorld) 10 = [leafSelfEntry, midChainEntry]
   \<and> readAllChildren (destroy 14 twinWorld) 18 = readAllChildren twinWorld 18"
proof -
  have hyp: "internalFactory childDir (emptyScope # nodeContext) nodeWorld = (14, midFactoryWorld)
      \<and> destroyCallbacks nodeWorld (nextRef nodeWorld) = []
      \<and> destroyCallbacks twinWorld 14 = destroyCallbacks midFactoryWorld 14"
    by (simp add: mid_factory nodeWorld_callbacks twinWorld_callbacks midFactoryWorld_callbacks)
  from destroy_removes_own_entry_by_identity
          [of childDir "emptyScope # nodeContext" nodeWorld 14 midFactoryWorld twinWorld 10 midChainEntry,
           THEN mp, OF hyp]
       destroy_removes_own_entry_by_identity
          [of childDir "emptyScope # nodeContext" nodeWorld 14 midFactoryWorld twinWorld 18 midChainEntry,
           THEN mp, OF hyp]
  show ?thesis
    by (simp add: nodeContext_chain rootChainEntry_def mid_self twinWorld_root_children
          sameEntry_def structurallyEqual_def sameToken_def
          midSelfEntry_def leafSelfEntry_def midChainEntry_def)
qed

subsection \<open>The children view\<close>









subsection \<open>Two protos on one element\<close>












end
